theory Spec2Isabelle
  imports Main "HOL-Library.Sublist"
begin

section \<open>Python strings\<close>

text \<open>
  A Python \<open>str\<close> is a sequence of code points. The model is \<open>string\<close>, one \<open>char\<close>
  per code point, which covers the code points below 256 (ASCII and Latin-1). The character
  classes below are Python's, restricted to that range.
\<close>

definition ascii_digits :: string where
  "ascii_digits = ''0123456789''"

definition ascii_uppercase :: string where
  "ascii_uppercase = ''ABCDEFGHIJKLMNOPQRSTUVWXYZ''"

definition ascii_lowercase :: string where
  "ascii_lowercase = ''abcdefghijklmnopqrstuvwxyz''"

text \<open>\<open>string.punctuation\<close>: the 32 ASCII punctuation characters.\<close>

definition punctuation :: string where
  "punctuation =
     [CHR 0x21, CHR 0x22, CHR 0x23, CHR 0x24, CHR 0x25, CHR 0x26, CHR 0x27, CHR 0x28,
      CHR 0x29, CHR 0x2A, CHR 0x2B, CHR 0x2C, CHR 0x2D, CHR 0x2E, CHR 0x2F, CHR 0x3A,
      CHR 0x3B, CHR 0x3C, CHR 0x3D, CHR 0x3E, CHR 0x3F, CHR 0x40, CHR 0x5B, CHR 0x5C,
      CHR 0x5D, CHR 0x5E, CHR 0x5F, CHR 0x60, CHR 0x7B, CHR 0x7C, CHR 0x7D, CHR 0x7E]"

text \<open>\<open>\d\<close> in a \<open>str\<close> pattern: the decimal digits; below 256 these are \<open>0\<close> to \<open>9\<close>.\<close>

definition is_decimal :: "char \<Rightarrow> bool" where
  "is_decimal c = (c \<in> set ascii_digits)"

text \<open>\<open>str.isdigit\<close> also accepts the superscripts two, three and one (0xB2, 0xB3, 0xB9).\<close>

definition isdigit :: "char \<Rightarrow> bool" where
  "isdigit c = (is_decimal c \<or> c \<in> set [CHR 0xB2, CHR 0xB3, CHR 0xB9])"

definition is_ascii_letter :: "char \<Rightarrow> bool" where
  "is_ascii_letter c = (c \<in> set ascii_uppercase \<or> c \<in> set ascii_lowercase)"

text \<open>\<open>str.isspace\<close>, which is also what \<open>strip()\<close>, \<open>split()\<close> and \<open>\s\<close> use.\<close>

definition isspace :: "char \<Rightarrow> bool" where
  "isspace c =
     (c \<in> set [CHR 0x09, CHR 0x0A, CHR 0x0B, CHR 0x0C, CHR 0x0D, CHR 0x1C, CHR 0x1D,
                CHR 0x1E, CHR 0x1F, CHR 0x20, CHR 0x85, CHR 0xA0])"

text \<open>\<open>str.lower\<close>: \<open>A\<close>--\<open>Z\<close> and the Latin-1 capitals 0xC0--0xDE (but not 0xD7, the
  multiplication sign) move up by 32.\<close>

definition lower_char :: "char \<Rightarrow> char" where
  "lower_char c =
     (let n = (of_char c :: nat)
      in if (65 \<le> n \<and> n \<le> 90) \<or> (192 \<le> n \<and> n \<le> 222 \<and> n \<noteq> 215)
         then char_of (n + 32) else c)"

definition lower :: "string \<Rightarrow> string" where
  "lower s = map lower_char s"

definition strip :: "string \<Rightarrow> string" where
  "strip s = rev (dropWhile isspace (rev (dropWhile isspace s)))"

text \<open>\<open>s.replace(" ", "")\<close>.\<close>

definition remove_spaces :: "string \<Rightarrow> string" where
  "remove_spaces s = filter (\<lambda>c. c \<noteq> CHR '' '') s"

text \<open>\<open>k in s\<close> and \<open>s.startswith(p)\<close> on strings.\<close>

definition py_in :: "string \<Rightarrow> string \<Rightarrow> bool" where
  "py_in k s = sublist k s"

definition startswith :: "string \<Rightarrow> string \<Rightarrow> bool" where
  "startswith s p = prefix p s"

text \<open>\<open>s.split(sep)\<close> for a one-character separator: always at least one piece.\<close>

fun split_on :: "char \<Rightarrow> string \<Rightarrow> string list" where
  "split_on sep [] = [[]]"
| "split_on sep (c # cs) =
     (if c = sep then [] # split_on sep cs
      else (c # hd (split_on sep cs)) # tl (split_on sep cs))"

text \<open>\<open>s.split()\<close>: the maximal runs of non-space characters.\<close>

fun split_ws_acc :: "string \<Rightarrow> string \<Rightarrow> string list" where
  "split_ws_acc w [] = (if w = [] then [] else [rev w])"
| "split_ws_acc w (c # cs) =
     (if isspace c then (if w = [] then split_ws_acc [] cs else rev w # split_ws_acc [] cs)
      else split_ws_acc (c # w) cs)"

definition split_ws :: "string \<Rightarrow> string list" where
  "split_ws s = split_ws_acc [] s"

text \<open>\<open>sep.join(xs)\<close>.\<close>

fun join :: "string \<Rightarrow> string list \<Rightarrow> string" where
  "join sep [] = []"
| "join sep [x] = x"
| "join sep (x # y # ys) = x @ sep @ join sep (y # ys)"

text \<open>\<open>str(n)\<close> for a length.\<close>

definition digit_char :: "nat \<Rightarrow> char" where
  "digit_char d = ascii_digits ! (d mod 10)"

function str_of_nat :: "nat \<Rightarrow> string" where
  "str_of_nat n = (if n < 10 then [digit_char n] else str_of_nat (n div 10) @ [digit_char n])"
  by pat_completeness auto
termination
  by (relation "measure id") auto

section \<open>Regular expressions\<close>

text \<open>
  The patterns of the source use character classes, concatenation, alternation, \<open>?\<close>,
  \<open>*\<close>, \<open>+\<close> and counted repetition only (no back-references, no look-around), and the
  source uses only whether a match exists. For these, Python's backtracking matcher finds a
  match exactly when the regular language has one, so a pattern is a regular expression
  over character predicates, matched by derivatives.
\<close>

datatype rx =
    Zero
  | Eps
  | Atom "char \<Rightarrow> bool"
  | Alt rx rx
  | Seq rx rx
  | Star rx

fun nullable :: "rx \<Rightarrow> bool" where
  "nullable Zero = False"
| "nullable Eps = True"
| "nullable (Atom p) = False"
| "nullable (Alt r s) = (nullable r \<or> nullable s)"
| "nullable (Seq r s) = (nullable r \<and> nullable s)"
| "nullable (Star r) = True"

fun deriv :: "char \<Rightarrow> rx \<Rightarrow> rx" where
  "deriv c Zero = Zero"
| "deriv c Eps = Zero"
| "deriv c (Atom p) = (if p c then Eps else Zero)"
| "deriv c (Alt r s) = Alt (deriv c r) (deriv c s)"
| "deriv c (Seq r s) =
     (if nullable r then Alt (Seq (deriv c r) s) (deriv c s) else Seq (deriv c r) s)"
| "deriv c (Star r) = Seq (deriv c r) (Star r)"

fun rx_matches :: "rx \<Rightarrow> string \<Rightarrow> bool" where
  "rx_matches r [] = nullable r"
| "rx_matches r (c # cs) = rx_matches (deriv c r) cs"

definition Lit :: "string \<Rightarrow> rx" where
  "Lit s = foldr (\<lambda>c r. Seq (Atom (\<lambda>x. x = c)) r) s Eps"

definition Opt :: "rx \<Rightarrow> rx" where
  "Opt r = Alt r Eps"

definition Plus :: "rx \<Rightarrow> rx" where
  "Plus r = Seq r (Star r)"

fun Times :: "nat \<Rightarrow> rx \<Rightarrow> rx" where
  "Times 0 r = Eps"
| "Times (Suc n) r = Seq r (Times n r)"

text \<open>\<open>.\<close> matches every character but the newline; \<open>(?s).\<close> is every character.\<close>

definition Dot :: rx where
  "Dot = Atom (\<lambda>c. c \<noteq> CHR 0x0A)"

definition AnyChar :: rx where
  "AnyChar = Atom (\<lambda>c. True)"

text \<open>\<open>re.search(p, s)\<close> for a pattern without anchors: some substring of \<open>s\<close> is in the
  language of \<open>p\<close>.\<close>

definition re_search :: "rx \<Rightarrow> string \<Rightarrow> bool" where
  "re_search r s = rx_matches (Seq (Star AnyChar) (Seq r (Star AnyChar))) s"

text \<open>\<open>re.match("^p$", s)\<close>: \<open>$\<close> matches at the end of the string and also just before a
  newline that ends the string.\<close>

definition re_match_anchored :: "rx \<Rightarrow> string \<Rightarrow> bool" where
  "re_match_anchored r s =
     (rx_matches r s \<or> (s \<noteq> [] \<and> last s = CHR 0x0A \<and> rx_matches r (butlast s)))"

text \<open>What a pattern denotes: its language, the set of strings it matches in full.\<close>

definition conc :: "string set \<Rightarrow> string set \<Rightarrow> string set" where
  "conc A B = {u @ v | u v. u \<in> A \<and> v \<in> B}"

inductive_set star :: "string set \<Rightarrow> string set" for A :: "string set" where
  star_empty: "[] \<in> star A"
| star_more: "u \<in> A \<Longrightarrow> v \<in> star A \<Longrightarrow> u @ v \<in> star A"

fun lang :: "rx \<Rightarrow> string set" where
  "lang Zero = {}"
| "lang Eps = {[]}"
| "lang (Atom p) = {[c] | c. p c}"
| "lang (Alt r s) = lang r \<union> lang s"
| "lang (Seq r s) = conc (lang r) (lang s)"
| "lang (Star r) = star (lang r)"

section \<open>The USSD scorer (app.py)\<close>

definition SAFE_PREFIX_PATTERNS :: "string list" where
  "SAFE_PREFIX_PATTERNS =
     [''*123'', ''*123*'', ''*310'', ''*311'', ''*312'', ''*323'', ''*321'', ''*131'', ''*404'',
      ''*606'', ''*244'', ''*244*'', ''*556'',
      ''*121'', ''*140'', ''*123'', ''*124'', ''*126'', ''*137'', ''*124'', ''*127'', ''*129'',
      ''*130'', ''*131'', ''*132'', ''*133'',
      ''*228'', ''*232'', ''*233'', ''*229'', ''*901'', ''*902'', ''*909'', ''*911'', ''*826'',
      ''*989'', ''*737'', ''*737*'', ''*779'', ''*779*'',
      ''*135'', ''*136'', ''*137'', ''*138'', ''*139'', ''*144'', ''*#21'', ''*#61'', ''*#62'',
      ''*#67'', ''*#06'',
      ''*199'', ''*770'', ''*894'', ''*329'', ''*565'', ''*326'', ''*24542'', ''*244*1'',
      ''*123*1'', ''*123*2'', ''*123*4'']"

text \<open>The set literal \<open>KNOWN_SAFE_CODES\<close> of \<open>pattern_score_ussd\<close>; only membership is used.\<close>

definition KNOWN_SAFE_CODES :: "string list" where
  "KNOWN_SAFE_CODES =
     [''*123#'', ''*123*1#'', ''*123*1*1#'', ''*123*2#'', ''*123*4#'', ''*310#'', ''*311#'',
      ''*312#'',
      ''*321#'', ''*131#'', ''*121#'', ''*124#'', ''*228#'', ''*901#'', ''*902#'', ''*909#'',
      ''*911#'',
      ''*826#'', ''*989#'', ''*737#'', ''*199#'', ''*#21#'', ''*#61#'', ''*#62#'', ''*#67#'',
      ''*#06#'',
      ''*244*1#'', ''*24542#'', ''*232#'', ''*233#'', ''*322#'', ''*326#'', ''*329#'', ''*565#'',
      ''*126#'']"

text \<open>\<open>code.strip().replace(" ", "") if code else ""\<close>\<close>

definition normalize_ussd :: "string \<Rightarrow> string" where
  "normalize_ussd code = (if code = [] then [] else remove_spaces (strip code))"

text \<open>The class \<open>[\d\*\#A-Za-z]\<close> and the pattern \<open>\*[\d\*\#A-Za-z]+#?\<close> between \<open>^\<close> and
  \<open>$\<close>.\<close>

definition ussd_char :: "char \<Rightarrow> bool" where
  "ussd_char c = (is_decimal c \<or> c = CHR ''*'' \<or> c = CHR ''#'' \<or> is_ascii_letter c)"

definition ussd_format :: rx where
  "ussd_format = Seq (Atom (\<lambda>c. c = CHR ''*'')) (Seq (Plus (Atom ussd_char)) (Opt (Atom (\<lambda>c. c = CHR ''#''))))"

text \<open>\<open>re.sub(r"^\*|\#$", "", c)\<close>: a leading star goes, and so does a hash that ends the rest
  (or stands just before a newline that ends it).\<close>

definition sub_star_hash :: "string \<Rightarrow> string" where
  "sub_star_hash c =
     (let r = (if c \<noteq> [] \<and> hd c = CHR ''*'' then tl c else c)
      in if r \<noteq> [] \<and> last r = CHR ''#'' then butlast r
         else if 2 \<le> length r \<and> last r = CHR 0x0A \<and> last (butlast r) = CHR ''#''
              then butlast (butlast r) @ [CHR 0x0A]
         else r)"

definition high_risk_kw :: "string list" where
  "high_risk_kw = [''bvn'', ''pin'', ''password'', ''passcode'', ''verif'', ''auth'']"

definition medium_risk_kw :: "string list" where
  "medium_risk_kw = [''account'', ''confirm'', ''secure'', ''update'', ''validate'']"

text \<open>The scorer keeps a running \<open>(score, reasons)\<close>. Each block of the source is one step
  on that pair, in the order of the source.\<close>

type_synonym tally = "int \<times> string list"

text \<open>\<open>if not re.match(...): reasons.append("Invalid USSD format"); score += 4\<close>\<close>

definition check_format :: "string \<Rightarrow> tally \<Rightarrow> tally" where
  "check_format c t =
     (if \<not> re_match_anchored ussd_format c
      then (fst t + 4, snd t @ [''Invalid USSD format'']) else t)"

text \<open>\<open>is_known_safe = any(c.startswith(p) for p in SAFE_PREFIX_PATTERNS)\<close>\<close>

definition is_known_safe :: "string \<Rightarrow> bool" where
  "is_known_safe c = list_ex (startswith c) SAFE_PREFIX_PATTERNS"

text \<open>\<open>if is_known_safe: score = max(0, score - 2); reasons.append("Known safe prefix")\<close>\<close>

definition check_prefix :: "string \<Rightarrow> tally \<Rightarrow> tally" where
  "check_prefix c t =
     (if is_known_safe c then (max 0 (fst t - 2), snd t @ [''Known safe prefix'']) else t)"

text \<open>\<open>digits = re.sub(r"\D", "", c)\<close> and the two length thresholds.\<close>

definition check_digits :: "string \<Rightarrow> tally \<Rightarrow> tally" where
  "check_digits c t =
     (let digits = filter is_decimal c
      in if 9 \<le> length digits
         then (fst t + 6,
               snd t @ [''Long numeric sequence ('' @ str_of_nat (length digits) @ '' digits)''])
         else if 6 \<le> length digits
         then (fst t + 2, snd t @ [''Moderate numeric sequence''])
         else t)"

text \<open>\<open>for k in kws: if k in low: score += pts; reasons.append(f"<label>: '{k}'")\<close>\<close>

fun check_keywords :: "int \<Rightarrow> string \<Rightarrow> string \<Rightarrow> string list \<Rightarrow> tally \<Rightarrow> tally" where
  "check_keywords pts label low [] t = t"
| "check_keywords pts label low (k # ks) t =
     check_keywords pts label low ks
       (if py_in k low
        then (fst t + pts, snd t @ [label @ '': '' @ [CHR 0x27] @ k @ [CHR 0x27]])
        else t)"

text \<open>The two tests on \<open>segments = re.sub(r"^\*|\#$", "", c).split("*")\<close>.\<close>

definition check_segments :: "string \<Rightarrow> tally \<Rightarrow> tally" where
  "check_segments c t =
     (let segments = split_on (CHR ''*'') (sub_star_hash c);
          t1 = (if 3 < length segments
                then (fst t + 3,
                      snd t @ [''Many segments ('' @ str_of_nat (length segments) @ '')''])
                else t)
      in if length (remdups segments) \<le> 1 \<and> 1 < length segments
         then (fst t1 + 4, snd t1 @ [''Repeating segments'']) else t1)"

text \<open>\<open>if re.search(r"[A-Za-z]", c) and not is_known_safe\<close> and \<open>if not is_known_safe\<close>.\<close>

definition check_letters :: "string \<Rightarrow> tally \<Rightarrow> tally" where
  "check_letters c t =
     (if list_ex is_ascii_letter c \<and> \<not> is_known_safe c
      then (fst t + 2, snd t @ [''Contains letters'']) else t)"

definition check_unknown_prefix :: "string \<Rightarrow> tally \<Rightarrow> tally" where
  "check_unknown_prefix c t =
     (if \<not> is_known_safe c then (fst t + 1, snd t @ [''Unknown prefix'']) else t)"

text \<open>\<open>score = min(max(0, score), 10)\<close>\<close>

definition cap_score :: "tally \<Rightarrow> tally" where
  "cap_score t = (min (max 0 (fst t)) 10, snd t)"

definition pattern_score_ussd :: "string \<Rightarrow> int \<times> string list" where
  "pattern_score_ussd code =
     (let c = normalize_ussd code
      in if c = [] then (100, [''Empty code''])
         else if c \<in> set KNOWN_SAFE_CODES then (0, [''Known safe telco/bank code''])
         else
           (let low = lower c
            in cap_score
                 (check_unknown_prefix c
                   (check_letters c
                     (check_segments c
                       (check_keywords 4 ''Medium-risk keyword'' low medium_risk_kw
                         (check_keywords 8 ''High-risk keyword'' low high_risk_kw
                           (check_digits c
                             (check_prefix c
                               (check_format c (0, [])))))))))))"

section \<open>The SMS scorer (app.py)\<close>

text \<open>The dictionary that \<open>improved_check_sms_scam\<close> returns. Its early returns carry no
  \<open>content\<close> and no \<open>score\<close> key.\<close>

record sms_result =
  sms_content :: "string option"
  scam :: bool
  confidence :: int
  sms_score :: "int option"
  sms_reasons :: "string list"

definition Cat :: "rx list \<Rightarrow> rx" where
  "Cat rs = foldr Seq rs Eps"

definition Digit :: rx where
  "Digit = Atom is_decimal"

text \<open>
  \<^verbatim>\<open>r"your otp is \d{4,6}"\<close>, \<^verbatim>\<open>r"verification code:?\s*\d+"\<close>, \<^verbatim>\<open>r"meeting at \d"\<close>,
  \<^verbatim>\<open>r"delivery (arriving|scheduled)"\<close>, \<^verbatim>\<open>r"hello,? how are you"\<close>
\<close>

definition legitimate_patterns :: "rx list" where
  "legitimate_patterns =
     [Cat [Lit ''your otp is '', Times 4 Digit, Opt Digit, Opt Digit],
      Cat [Lit ''verification code'', Opt (Lit '':''), Star (Atom isspace), Plus Digit],
      Cat [Lit ''meeting at '', Digit],
      Cat [Lit ''delivery '', Alt (Lit ''arriving'') (Lit ''scheduled'')],
      Cat [Lit ''hello'', Opt (Lit '',''), Lit '' how are you'']]"

definition scam_indicators :: "(string \<times> int) list" where
  "scam_indicators =
     [(''won'', 4), (''win'', 4), (''prize'', 4), (''lottery'', 5), (''million'', 4), (''cash'', 3),
      (''award'', 3), (''claim'', 3), (''urgent'', 3), (''immediately'', 3), (''verification'', 2),
      (''bvn'', 6), (''password'', 5), (''pin'', 5), (''transfer'', 3), (''free'', 3),
      (''gift'', 3), (''congratulations'', 2), (''congrats'', 2), (''account'', 3), (''bank'', 2)]"

text \<open>The weight of \<open>otp\<close> is set after the literal: 1 when \<open>otp\<close> comes with one of
  \<open>your\<close>, \<open>code\<close>, \<open>is\<close>, \<open>verification\<close> (all substring tests), 3 otherwise.\<close>

definition otp_weight :: "string \<Rightarrow> int" where
  "otp_weight normalized =
     (if py_in ''otp'' normalized
         \<and> list_ex (\<lambda>word. py_in word normalized) [''your'', ''code'', ''is'', ''verification'']
      then 1 else 3)"

definition indicators_for :: "string \<Rightarrow> (string \<rightharpoonup> int)" where
  "indicators_for normalized = (map_of scam_indicators)(''otp'' \<mapsto> otp_weight normalized)"

text \<open>\<open>for word in words: if word in scam_indicators: score += ...; triggered.append(word)\<close>\<close>

fun score_words :: "(string \<rightharpoonup> int) \<Rightarrow> string list \<Rightarrow> int \<times> string list \<Rightarrow> int \<times> string list" where
  "score_words ind [] t = t"
| "score_words ind (word # ws) t =
     score_words ind ws
       (case ind word of None \<Rightarrow> t | Some pts \<Rightarrow> (fst t + pts, snd t @ [word]))"

text \<open>
  \<^verbatim>\<open>(r"you.*won.*\d+", 6, ...), (r"call.*\d{8,}", 5, ...), (r"click.*http", 5, ...),\<close>
  \<^verbatim>\<open>(r"account.*verif", 4, ...), (r"free.*gift", 4, ...), (r"your.*bvn", 6, ...)\<close>
\<close>

definition sms_patterns :: "(rx \<times> int \<times> string) list" where
  "sms_patterns =
     [(Cat [Lit ''you'', Star Dot, Lit ''won'', Star Dot, Plus Digit], 6, ''Winning announcement''),
      (Cat [Lit ''call'', Star Dot, Times 8 Digit, Star Digit], 5, ''Unknown number request''),
      (Cat [Lit ''click'', Star Dot, Lit ''http''], 5, ''Suspicious link''),
      (Cat [Lit ''account'', Star Dot, Lit ''verif''], 4, ''Account verification''),
      (Cat [Lit ''free'', Star Dot, Lit ''gift''], 4, ''Free gift offer''),
      (Cat [Lit ''your'', Star Dot, Lit ''bvn''], 6, ''BVN request'')]"

text \<open>\<open>for pattern, points, reason in patterns: if re.search(pattern, normalized): ...\<close>\<close>

fun score_patterns :: "string \<Rightarrow> (rx \<times> int \<times> string) list \<Rightarrow> tally \<Rightarrow> tally" where
  "score_patterns normalized [] t = t"
| "score_patterns normalized ((pattern, points, reason) # ps) t =
     score_patterns normalized ps
       (if re_search pattern normalized then (fst t + points, snd t @ [reason]) else t)"

text \<open>\<open>content.lower().translate(str.maketrans('', '', string.punctuation))\<close>\<close>

definition normalize_sms :: "string \<Rightarrow> string" where
  "normalize_sms content = filter (\<lambda>c. c \<notin> set punctuation) (lower content)"

definition improved_check_sms_scam :: "string \<Rightarrow> sms_result" where
  "improved_check_sms_scam content =
     (if content = []
      then \<lparr>sms_content = None, scam = False, confidence = 0, sms_score = None, sms_reasons = []\<rparr>
      else if re_match_anchored ussd_format (strip content)
      then \<lparr>sms_content = None, scam = False, confidence = 0, sms_score = None,
            sms_reasons = [''USSD code detected'']\<rparr>
      else
        (let normalized = normalize_sms content;
             words = split_ws normalized
         in if list_ex (\<lambda>pattern. re_search pattern normalized) legitimate_patterns
            then \<lparr>sms_content = None, scam = False, confidence = 0, sms_score = None,
                  sms_reasons = [''Legitimate communication pattern'']\<rparr>
            else
              (let st = score_words (indicators_for normalized) words (0, []);
                   triggered = snd st;
                   reasons = (if triggered \<noteq> []
                              then [''Suspicious words: '' @ join '', '' triggered] else []);
                   t = score_patterns normalized sms_patterns (fst st, reasons);
                   t = (if length words = 1 \<and> hd words \<in> set [''congratulations'', ''congrats'']
                        then (max (fst t - 3) 0, [''Single word - needs context'']) else t);
                   score = fst t
               in \<lparr>sms_content = Some content, scam = (6 \<le> score), confidence = min score 10,
                   sms_score = Some score, sms_reasons = snd t\<rparr>)))"

section \<open>The flat-file store (app.py)\<close>

text \<open>
  A file is missing or holds a text; the text of a JSON file either parses to a value or is
  malformed. \<open>Path.read_text\<close> and \<open>open\<close> raise on a missing file, \<open>json.loads\<close> raises on
  a malformed text; exceptions are values of \<open>exn\<close>.
\<close>

datatype exn = FileNotFoundError | JSONDecodeError | AttributeError

datatype 'a disk_file = NoFile | File 'a

datatype 'a json = Malformed | Parsed 'a

definition read_text :: "'a disk_file \<Rightarrow> exn + 'a" where
  "read_text f = (case f of NoFile \<Rightarrow> Inl FileNotFoundError | File t \<Rightarrow> Inr t)"

definition json_loads :: "'a json \<Rightarrow> exn + 'a" where
  "json_loads t = (case t of Malformed \<Rightarrow> Inl JSONDecodeError | Parsed v \<Rightarrow> Inr v)"

text \<open>\<open>try: return json.loads(PATH.read_text())  except: return <default>\<close>\<close>

definition loads_or :: "'a \<Rightarrow> 'a json disk_file \<Rightarrow> 'a" where
  "loads_or dflt f =
     (case read_text f of
        Inl e \<Rightarrow> dflt
      | Inr t \<Rightarrow> (case json_loads t of Inl e \<Rightarrow> dflt | Inr v \<Rightarrow> v))"

typedecl pyfloat

record report =
  report_type :: string
  content :: string
  location :: string
  username :: string
  timestamp :: string
  status :: string
  lat :: "pyfloat option"
  lon :: "pyfloat option"

record curated_code =
  code :: string
  ctype :: string
  provider :: string
  description :: string
  reference :: string
  added_by :: string
  ctimestamp :: string
  verified :: bool

text \<open>A cache entry is a dictionary read with \<open>entry.get(key, default)\<close>: every key may be
  absent.\<close>

record cache_entry =
  e_safe :: "bool option"
  e_score :: "int option"
  e_reasons :: "string list option"
  e_verified_online :: "bool option"
  e_source :: "string option"

record world =
  safe_ussd_codes :: "string disk_file"
  blacklist_ussd :: "string disk_file"
  ussd_cache :: "(string \<rightharpoonup> cache_entry) json disk_file"
  community_reports :: "report list json disk_file"
  curated_codes :: "curated_code list json disk_file"

definition read_reports :: "report list json disk_file \<Rightarrow> report list" where
  "read_reports f = loads_or [] f"

definition write_reports :: "report list \<Rightarrow> report list json disk_file" where
  "write_reports reports = File (Parsed reports)"

definition read_ussd_cache :: "(string \<rightharpoonup> cache_entry) json disk_file \<Rightarrow> (string \<rightharpoonup> cache_entry)" where
  "read_ussd_cache f = loads_or Map.empty f"

definition write_ussd_cache :: "(string \<rightharpoonup> cache_entry) \<Rightarrow> (string \<rightharpoonup> cache_entry) json disk_file" where
  "write_ussd_cache d = File (Parsed d)"

definition load_curated_codes :: "curated_code list json disk_file \<Rightarrow> curated_code list" where
  "load_curated_codes f = loads_or [] f"

definition save_curated_codes :: "curated_code list \<Rightarrow> curated_code list json disk_file" where
  "save_curated_codes codes = File (Parsed codes)"

text \<open>Iterating over a text file yields its lines; a line ends at a line feed or a carriage
  return. (A carriage return followed by a line feed gives an empty piece here, which
  \<open>load_lines\<close> drops like every blank line.)\<close>

fun split_lines :: "string \<Rightarrow> string list" where
  "split_lines [] = [[]]"
| "split_lines (c # cs) =
     (if c = CHR 0x0A \<or> c = CHR 0x0D then [] # split_lines cs
      else (c # hd (split_lines cs)) # tl (split_lines cs))"

text \<open>\<open>try: return [l.strip() for l in f if l.strip()]  except: return []\<close>\<close>

definition load_lines :: "string disk_file \<Rightarrow> string list" where
  "load_lines f =
     (case read_text f of
        Inl e \<Rightarrow> []
      | Inr t \<Rightarrow> filter (\<lambda>l. l \<noteq> []) (map strip (split_lines t)))"

definition load_safe_ussd :: "string disk_file \<Rightarrow> string set" where
  "load_safe_ussd f = set (map normalize_ussd (load_lines f))"

definition load_blacklist_ussd :: "string disk_file \<Rightarrow> string set" where
  "load_blacklist_ussd f = set (map normalize_ussd (load_lines f))"

text \<open>\<open>with open(path, "a") as fh: fh.write(line + "\n")\<close>: appending creates a missing
  file.\<close>

definition append_line :: "string disk_file \<Rightarrow> string \<Rightarrow> string disk_file" where
  "append_line f line =
     (case f of NoFile \<Rightarrow> File (line @ [CHR 0x0A]) | File t \<Rightarrow> File (t @ line @ [CHR 0x0A]))"

section \<open>The endpoint \<open>/check-ussd\<close> (app.py)\<close>

datatype failure = HTTPException nat string | Uncaught exn

definition TRUSTED_USSD_SOURCE_URLS :: "string list" where
  "TRUSTED_USSD_SOURCE_URLS = []"

text \<open>The network is a parameter: \<open>fetch u\<close> is the status code and the body that
  \<open>requests.get(u)\<close> returns, or \<open>None\<close> when it raises; \<open>online\<close> is what \<open>is_online()\<close>
  returns.\<close>

fun verify_loop :: "(string \<Rightarrow> (nat \<times> string) option) \<Rightarrow> string \<Rightarrow> string list \<Rightarrow> bool \<times> string option" where
  "verify_loop fetch norm [] = (False, None)"
| "verify_loop fetch norm (u # us) =
     (case fetch u of
        None \<Rightarrow> verify_loop fetch norm us
      | Some (status_code, body) \<Rightarrow>
          if status_code = 200 \<and> py_in norm (lower body) then (True, Some u)
          else verify_loop fetch norm us)"

definition online_verify_ussd ::
  "(string \<Rightarrow> (nat \<times> string) option) \<Rightarrow> string \<Rightarrow> string list \<Rightarrow> bool \<times> string option" where
  "online_verify_ussd fetch c urls =
     (let urls = (if urls = [] then TRUSTED_USSD_SOURCE_URLS else urls)
      in if urls = [] then (False, None)
         else verify_loop fetch (lower (normalize_ussd c)) urls)"

text \<open>The response dictionary; the key \<open>source\<close> is absent from some responses (\<open>None\<close>) and
  null in others (\<open>Some None\<close>).\<close>

record ussd_response =
  resp_code :: string
  safe :: bool
  score :: int
  reasons :: "string list"
  verified_online :: bool
  source :: "string option option"
  cached :: bool

definition check_ussd ::
  "(string \<Rightarrow> (nat \<times> string) option) \<Rightarrow> bool \<Rightarrow> world \<Rightarrow> string \<Rightarrow> bool
     \<Rightarrow> failure + (ussd_response \<times> world)" where
  "check_ussd fetch online w c full_mode =
     (if c = [] then Inl (HTTPException 400 ''USSD code required'')
      else
        (let norm = normalize_ussd c;
             safe_set = load_safe_ussd (safe_ussd_codes w);
             blacklist = load_blacklist_ussd (blacklist_ussd w);
             cache = read_ussd_cache (ussd_cache w)
         in if norm \<in> blacklist
            then Inr (\<lparr>resp_code = norm, safe = False, score = 10, reasons = [''Blacklisted''],
                       verified_online = False, source = None, cached = False\<rparr>, w)
            else
              (case cache norm of
                 Some entry \<Rightarrow>
                   Inr (\<lparr>resp_code = norm,
                         safe = (case e_safe entry of None \<Rightarrow> False | Some b \<Rightarrow> b),
                         score = (case e_score entry of None \<Rightarrow> 0 | Some n \<Rightarrow> n),
                         reasons = (case e_reasons entry of None \<Rightarrow> [] | Some rs \<Rightarrow> rs),
                         verified_online =
                           (case e_verified_online entry of None \<Rightarrow> False | Some b \<Rightarrow> b),
                         source = Some (e_source entry), cached = True\<rparr>, w)
               | None \<Rightarrow>
                   (let (sc, rs) = pattern_score_ussd norm
                    in if norm \<in> safe_set
                       then
                         (let result = \<lparr>resp_code = norm, safe = True, score = sc,
                                         reasons = rs @ [''In safe list''],
                                         verified_online = False, source = None, cached = False\<rparr>
                          in if full_mode \<and> online
                             then
                               (let (v, src) = online_verify_ussd fetch norm []
                                in if v
                                   then Inr (result\<lparr>verified_online := True, source := Some src\<rparr>,
                                             w\<lparr>ussd_cache := write_ussd_cache
                                                 (cache(norm \<mapsto>
                                                    \<lparr>e_safe = Some True, e_score = Some sc,
                                                     e_reasons = Some rs,
                                                     e_verified_online = Some True,
                                                     e_source = src\<rparr>))\<rparr>)
                                   else Inr (result, w))
                             else Inr (result, w))
                       else
                         (if full_mode \<and> online
                          then
                            (let (v, src) = online_verify_ussd fetch norm []
                             in if v
                                then
                                  (let rs' = rs @ [''Verified by '' @ (case src of None \<Rightarrow> ''None'' | Some u \<Rightarrow> u)]
                                   in Inr (\<lparr>resp_code = norm, safe = True, score = sc, reasons = rs',
                                            verified_online = True, source = Some src,
                                            cached = True\<rparr>,
                                           w\<lparr>ussd_cache := write_ussd_cache
                                               (cache(norm \<mapsto>
                                                  \<lparr>e_safe = Some True, e_score = Some sc,
                                                   e_reasons = Some rs',
                                                   e_verified_online = Some True,
                                                   e_source = src\<rparr>))\<rparr>))
                                else Inr (\<lparr>resp_code = norm, safe = (sc < 5), score = sc,
                                           reasons = rs, verified_online = v, source = Some src,
                                           cached = False\<rparr>, w))
                          else Inr (\<lparr>resp_code = norm, safe = (sc < 5), score = sc, reasons = rs,
                                     verified_online = False, source = Some None,
                                     cached = False\<rparr>, w))))))"

section \<open>Community reports and moderation (app.py)\<close>

text \<open>
  Line 9 of app.py imports the module \<open>datetime\<close>; line 17, \<open>from datetime import datetime\<close>,
  rebinds the name to the class. From then on \<open>datetime.datetime.now()\<close> looks the attribute
  \<open>datetime\<close> up on the class and raises \<open>AttributeError\<close>; nothing in the handlers catches it.
\<close>

definition datetime_datetime_now_isoformat :: "exn + string" where
  "datetime_datetime_now_isoformat = Inl AttributeError"

record ReportRequest =
  req_report_type :: string
  req_content :: string
  req_location :: "string option"
  req_username :: "string option"

record UpdateReportStatus =
  upd_index :: int
  upd_status :: string
  upd_action :: "string option"

text \<open>\<open>x or "dflt"\<close> for an optional string: \<open>None\<close> and the empty string give the default.\<close>

definition or_else :: "string option \<Rightarrow> string \<Rightarrow> string" where
  "or_else x dflt = (case x of None \<Rightarrow> dflt | Some v \<Rightarrow> if v = [] then dflt else v)"

text \<open>\<open>submit_report\<close>; \<open>geo\<close> is what \<open>geocode_location(report.location)\<close> returns.\<close>

definition submit_report ::
  "pyfloat option \<times> pyfloat option \<Rightarrow> world \<Rightarrow> ReportRequest \<Rightarrow> failure + (report \<times> world)" where
  "submit_report geo w req =
     (let reports = read_reports (community_reports w)
      in case datetime_datetime_now_isoformat of
           Inl e \<Rightarrow> Inl (Uncaught e)
         | Inr now \<Rightarrow>
             (let entry = \<lparr>report_type = req_report_type req, content = req_content req,
                           location = or_else (req_location req) ''Unknown'',
                           username = or_else (req_username req) ''Anonymous'',
                           timestamp = now, status = ''Pending'',
                           lat = fst geo, lon = snd geo\<rparr>
              in Inr (entry, w\<lparr>community_reports := write_reports (reports @ [entry])\<rparr>)))"

text \<open>\<open>reports[i]["status"] = s\<close>\<close>

definition set_status :: "report list \<Rightarrow> nat \<Rightarrow> string \<Rightarrow> report list" where
  "set_status reports i s = reports[i := (reports ! i)\<lparr>status := s\<rparr>]"

definition update_report_status :: "world \<Rightarrow> UpdateReportStatus \<Rightarrow> failure + (report \<times> world)" where
  "update_report_status w data =
     (let reports = read_reports (community_reports w)
      in if upd_index data < 0 \<or> int (length reports) \<le> upd_index data
         then Inl (HTTPException 400 ''Invalid report index'')
         else
           (let i = nat (upd_index data);
                reports = set_status reports i (upd_status data);
                c = normalize_ussd (content (reports ! i));
                w = (if upd_action data = Some ''add_safe''
                        \<and> c \<notin> load_safe_ussd (safe_ussd_codes w)
                     then w\<lparr>safe_ussd_codes := append_line (safe_ussd_codes w) c\<rparr> else w);
                w = (if upd_action data = Some ''add_blacklist''
                        \<and> c \<notin> load_blacklist_ussd (blacklist_ussd w)
                     then w\<lparr>blacklist_ussd := append_line (blacklist_ussd w) c\<rparr> else w)
            in Inr (reports ! i, w\<lparr>community_reports := write_reports reports\<rparr>)))"

text \<open>\<open>str.upper\<close>: \<open>a\<close>--\<open>z\<close> and the Latin-1 small letters 0xE0--0xFE (but not 0xF7, the
  division sign) move down by 32, and the sharp s (0xDF) becomes \<open>SS\<close>. The capitals of 0xB5
  and 0xFF lie beyond code point 255; these two are left as they are here.\<close>

definition upper_char :: "char \<Rightarrow> string" where
  "upper_char c =
     (let n = (of_char c :: nat)
      in if (97 \<le> n \<and> n \<le> 122) \<or> (224 \<le> n \<and> n \<le> 254 \<and> n \<noteq> 247)
         then [char_of (n - 32)]
         else if n = 223 then ''SS'' else [c])"

definition upper :: "string \<Rightarrow> string" where
  "upper s = concat (map upper_char s)"

text \<open>\<open>code.strip().replace(" ", "").upper()\<close>\<close>

definition normalize_code :: "string \<Rightarrow> string" where
  "normalize_code c = upper (remove_spaces (strip c))"

definition approve_report :: "world \<Rightarrow> int \<Rightarrow> failure + world" where
  "approve_report w index =
     (let reports = read_reports (community_reports w)
      in if index < 0 \<or> int (length reports) \<le> index
         then Inl (HTTPException 400 ''Invalid report index'')
         else
           (let i = nat index; rep = reports ! i
            in if report_type rep \<noteq> ''ussd'' then Inl (HTTPException 400 ''Not a USSD report'')
               else
                 (let curated = load_curated_codes (curated_codes w);
                      normalized_code = normalize_code (content rep);
                      added =
                        (if \<not> list_ex (\<lambda>c. normalize_code (code c) = normalized_code) curated
                         then
                           (case datetime_datetime_now_isoformat of
                              Inl e \<Rightarrow> Inl (Uncaught e)
                            | Inr now \<Rightarrow>
                                (let new_code =
                                       \<lparr>code = content rep, ctype = ''community_verified'',
                                        provider = ''Community Verified'',
                                        description =
                                          ''Verified from community report by '' @ username rep,
                                        reference = ''community_report'',
                                        added_by = username rep, ctimestamp = now,
                                        verified = True\<rparr>;
                                     w = w\<lparr>curated_codes := save_curated_codes (curated @ [new_code])\<rparr>
                                 in Inr (if normalized_code \<notin> load_safe_ussd (safe_ussd_codes w)
                                         then w\<lparr>safe_ussd_codes :=
                                                  append_line (safe_ussd_codes w) normalized_code\<rparr>
                                         else w)))
                         else Inr w)
                  in case added of
                       Inl e \<Rightarrow> Inl e
                     | Inr w \<Rightarrow>
                         Inr (w\<lparr>community_reports :=
                                  write_reports (set_status reports i ''Verified'')\<rparr>))))"

definition reject_report :: "world \<Rightarrow> int \<Rightarrow> failure + world" where
  "reject_report w index =
     (let reports = read_reports (community_reports w)
      in if index < 0 \<or> int (length reports) \<le> index
         then Inl (HTTPException 400 ''Invalid report index'')
         else Inr (w\<lparr>community_reports :=
                       write_reports (set_status reports (nat index) ''Rejected'')\<rparr>))"

section \<open>The variant server cyberguard\_clean.py\<close>

text \<open>
  The handler loads its database from a JSON file that is not part of the sources; when the
  file is missing or unreadable, \<open>load_database\<close> returns three empty lists. The database is a
  parameter here, and so is the regular-expression engine on the database's pattern strings:
  \<open>search p s\<close> is the outcome of \<open>re.search(p, s, re.IGNORECASE)\<close>, \<open>None\<close> when the pattern
  does not compile (\<open>re.error\<close>, which the loop skips).
\<close>

record database =
  safe_codes :: "(string \<times> string) list"
  scam_patterns :: "string list"
  scam_keywords :: "string list"

definition empty_database :: database where
  "empty_database = \<lparr>safe_codes = [], scam_patterns = [], scam_keywords = []\<rparr>"

text \<open>The dictionary both handlers return. The message starts with an emoji, a code point
  beyond 255; \<open>v_message\<close> is the message without that emoji and the space after it.\<close>

record verdict =
  v_safe :: bool
  v_confidence :: int
  v_message :: string
  v_color :: string

text \<open>The first safe code whose lower-cased \<open>code\<close> equals the normalised input.\<close>

definition check_ussd_code :: "(string \<Rightarrow> string \<Rightarrow> bool option) \<Rightarrow> database \<Rightarrow> string \<Rightarrow> verdict" where
  "check_ussd_code search db c =
     (let normalized = strip (lower c)
      in case find (\<lambda>safe_code. lower (fst safe_code) = normalized) (safe_codes db) of
           Some safe_code \<Rightarrow>
             \<lparr>v_safe = True, v_confidence = 95, v_message = ''SAFE - '' @ snd safe_code,
              v_color = ''green''\<rparr>
         | None \<Rightarrow>
             (case find (\<lambda>pattern. search pattern normalized = Some True) (scam_patterns db) of
                Some pattern \<Rightarrow>
                  \<lparr>v_safe = False, v_confidence = 90,
                   v_message = ''SCAM - Matches pattern: '' @ pattern, v_color = ''red''\<rparr>
              | None \<Rightarrow>
                  (let found_keywords = filter (\<lambda>keyword. py_in keyword normalized) (scam_keywords db)
                   in if found_keywords \<noteq> []
                      then \<lparr>v_safe = False, v_confidence = 75,
                            v_message = ''SUSPICIOUS - Contains: '' @ join '', '' found_keywords,
                            v_color = ''orange''\<rparr>
                      else \<lparr>v_safe = False, v_confidence = 50,
                            v_message = ''Unknown code - use caution'', v_color = ''gray''\<rparr>)))"

definition clean_scam_indicators :: "string list" where
  "clean_scam_indicators =
     [''won'', ''prize'', ''lottery'', ''congratulations'', ''claim'',
      ''free'', ''gift'', ''urgent'', ''bvn'', ''password'', ''pin'',
      ''verification'', ''suspended'', ''reset'', ''million'', ''cash'']"

text \<open>\<open>for indicator in scam_indicators: if indicator in normalized: score += 5; ...\<close>\<close>

fun clean_indicator_loop :: "string \<Rightarrow> string list \<Rightarrow> tally \<Rightarrow> tally" where
  "clean_indicator_loop normalized [] t = t"
| "clean_indicator_loop normalized (indicator # is) t =
     clean_indicator_loop normalized is
       (if py_in indicator normalized then (fst t + 5, snd t @ [indicator]) else t)"

definition check_sms_message :: "string \<Rightarrow> verdict" where
  "check_sms_message message =
     (if strip message = []
      then \<lparr>v_safe = False, v_confidence = 0, v_message = ''Empty message'', v_color = ''gray''\<rparr>
      else
        (let normalized = lower message;
             t = clean_indicator_loop normalized clean_scam_indicators (0, []);
             t = (if py_in ''http://'' normalized \<or> py_in ''https://'' normalized
                     \<or> py_in ''www.'' normalized
                  then (fst t + 10, snd t @ [''suspicious_url'']) else t);
             t = (if py_in ''call'' normalized \<and> list_ex isdigit normalized
                  then (fst t + 8, snd t @ [''phone_request'']) else t);
             sc = fst t; rs = snd t
         in if 15 \<le> sc
            then \<lparr>v_safe = False, v_confidence = 90,
                  v_message = ''HIGH-RISK SCAM SMS'' @ [CHR 0x0A] @ ''Detected: ''
                              @ join '', '' (take 3 rs),
                  v_color = ''red''\<rparr>
            else if 10 \<le> sc
            then \<lparr>v_safe = False, v_confidence = 75,
                  v_message = ''SUSPICIOUS SMS'' @ [CHR 0x0A] @ ''Detected: ''
                              @ join '', '' (take 2 rs),
                  v_color = ''orange''\<rparr>
            else if 5 \<le> sc
            then \<lparr>v_safe = False, v_confidence = 60,
                  v_message = ''POTENTIALLY RISKY'' @ [CHR 0x0A] @ ''Detected: ''
                              @ (if rs \<noteq> [] then hd rs else ''suspicious_content''),
                  v_color = ''orange''\<rparr>
            else \<lparr>v_safe = True, v_confidence = 95, v_message = ''Likely legitimate SMS'',
                  v_color = ''green''\<rparr>))"

section \<open>Starting state\<close>

text \<open>Lines 47--57 of app.py create every missing data file: the two code lists empty, the
  reports and the curated codes as \<open>[]\<close>, the cache as \<open>{}\<close>.\<close>

definition initial_world :: world where
  "initial_world =
     \<lparr>safe_ussd_codes = File [], blacklist_ussd = File [],
      ussd_cache = File (Parsed Map.empty), community_reports = File (Parsed []),
      curated_codes = File (Parsed [])\<rparr>"

text \<open>A network on which every request raises.\<close>

definition no_network :: "string \<Rightarrow> (nat \<times> string) option" where
  "no_network u = None"

section \<open>Example data\<close>

text \<open>A report, a curated code, a world that holds both, and a database for the variant
  server, for the concrete examples below.\<close>

definition example_report :: "string \<Rightarrow> report" where
  "example_report st =
     \<lparr>report_type = ''ussd'', content = ''*999#'', location = ''Lagos'', username = ''Anonymous'',
      timestamp = ''2025-01-01T00:00:00'', status = st, lat = None, lon = None\<rparr>"

definition example_curated :: curated_code where
  "example_curated =
     \<lparr>code = ''*999#'', ctype = ''bank'', provider = ''Example Bank'', description = [],
      reference = [], added_by = ''admin'', ctimestamp = ''2025-01-01T00:00:00'',
      verified = True\<rparr>"

definition example_world :: "string \<Rightarrow> world" where
  "example_world st =
     initial_world\<lparr>community_reports := File (Parsed [example_report st]),
                   curated_codes := File (Parsed [example_curated])\<rparr>"

definition example_database :: database where
  "example_database =
     \<lparr>safe_codes = [(''*901#'', ''Access Bank'')], scam_patterns = [], scam_keywords = [''pin'']\<rparr>"

text \<open>A pattern engine under which no pattern matches.\<close>

definition search_nothing :: "string \<Rightarrow> string \<Rightarrow> bool option" where
  "search_nothing pattern s = Some False"

section \<open>The matcher decides the language\<close>

text \<open>Matching by derivatives agrees with the language of the pattern, and \<open>re_search\<close>
  holds exactly when some substring is in the language.\<close>

lemma nil_in_conc: "[] \<in> conc A B \<longleftrightarrow> [] \<in> A \<and> [] \<in> B"
  by (auto simp add: conc_def)

lemma cons_in_conc:
  "c # w \<in> conc A B \<longleftrightarrow>
     ([] \<in> A \<and> c # w \<in> B) \<or> (\<exists>u v. w = u @ v \<and> c # u \<in> A \<and> v \<in> B)"
proof
  assume "c # w \<in> conc A B"
  then obtain u v where uv: "c # w = u @ v" "u \<in> A" "v \<in> B"
    by (auto simp add: conc_def)
  show "([] \<in> A \<and> c # w \<in> B) \<or> (\<exists>u v. w = u @ v \<and> c # u \<in> A \<and> v \<in> B)"
  proof (cases u)
    case Nil
    then show ?thesis using uv by simp
  next
    case (Cons a u')
    then have "w = u' @ v" "c # u' \<in> A" using uv by auto
    then show ?thesis using uv(3) by blast
  qed
next
  assume "([] \<in> A \<and> c # w \<in> B) \<or> (\<exists>u v. w = u @ v \<and> c # u \<in> A \<and> v \<in> B)"
  then show "c # w \<in> conc A B"
  proof
    assume "[] \<in> A \<and> c # w \<in> B"
    then have "[] @ (c # w) \<in> conc A B" unfolding conc_def by blast
    then show ?thesis by simp
  next
    assume "\<exists>u v. w = u @ v \<and> c # u \<in> A \<and> v \<in> B"
    then obtain u v where "w = u @ v" "c # u \<in> A" "v \<in> B" by blast
    then have "(c # u) @ v \<in> conc A B" unfolding conc_def by blast
    then show ?thesis using \<open>w = u @ v\<close> by simp
  qed
qed

lemma star_split:
  "x \<in> star A \<Longrightarrow> x = c # w \<Longrightarrow> \<exists>u v. w = u @ v \<and> c # u \<in> A \<and> v \<in> star A"
proof (induction arbitrary: w rule: star.induct)
  case star_empty
  then show ?case by simp
next
  case (star_more u v)
  show ?case
  proof (cases u)
    case Nil
    then have "v = c # w" using star_more.prems by simp
    then show ?thesis by (rule star_more.IH)
  next
    case (Cons a u')
    then have "w = u' @ v" "c # u' \<in> A" using star_more.prems star_more.hyps(1) by auto
    then show ?thesis using star_more.hyps(2) by blast
  qed
qed

lemma cons_in_star:
  "c # w \<in> star A \<longleftrightarrow> (\<exists>u v. w = u @ v \<and> c # u \<in> A \<and> v \<in> star A)"
proof
  assume "c # w \<in> star A"
  then show "\<exists>u v. w = u @ v \<and> c # u \<in> A \<and> v \<in> star A" by (rule star_split) simp
next
  assume "\<exists>u v. w = u @ v \<and> c # u \<in> A \<and> v \<in> star A"
  then obtain u v where uv: "w = u @ v" "c # u \<in> A" "v \<in> star A" by blast
  then have "(c # u) @ v \<in> star A" by (intro star_more)
  then show "c # w \<in> star A" using uv(1) by simp
qed

lemma nullable_lang: "nullable r \<longleftrightarrow> [] \<in> lang r"
  by (induction r) (auto simp add: nil_in_conc intro: star_empty)

lemma deriv_lang: "w \<in> lang (deriv c r) \<longleftrightarrow> c # w \<in> lang r"
proof (induction r arbitrary: w)
  case (Seq r s)
  have "w \<in> lang (deriv c (Seq r s)) \<longleftrightarrow>
          (\<exists>u v. w = u @ v \<and> u \<in> lang (deriv c r) \<and> v \<in> lang s)
          \<or> (nullable r \<and> w \<in> lang (deriv c s))"
    by (auto simp add: conc_def)
  also have "\<dots> \<longleftrightarrow>
          (\<exists>u v. w = u @ v \<and> c # u \<in> lang r \<and> v \<in> lang s) \<or> ([] \<in> lang r \<and> c # w \<in> lang s)"
    by (simp add: Seq.IH nullable_lang)
  also have "\<dots> \<longleftrightarrow> c # w \<in> lang (Seq r s)"
    by (auto simp add: cons_in_conc)
  finally show ?case .
next
  case (Star r)
  have "w \<in> lang (deriv c (Star r)) \<longleftrightarrow>
          (\<exists>u v. w = u @ v \<and> u \<in> lang (deriv c r) \<and> v \<in> star (lang r))"
    by (auto simp add: conc_def)
  also have "\<dots> \<longleftrightarrow> (\<exists>u v. w = u @ v \<and> c # u \<in> lang r \<and> v \<in> star (lang r))"
    by (simp add: Star.IH)
  also have "\<dots> \<longleftrightarrow> c # w \<in> lang (Star r)"
    by (simp add: cons_in_star)
  finally show ?case .
qed auto

lemma rx_matches_lang: "rx_matches r s \<longleftrightarrow> s \<in> lang r"
  by (induction s arbitrary: r) (simp_all add: nullable_lang deriv_lang)

lemma star_anychar: "s \<in> lang (Star AnyChar)"
proof (induction s)
  case Nil
  show ?case by (simp add: star_empty)
next
  case (Cons c s)
  have "[c] \<in> lang AnyChar" by (simp add: AnyChar_def)
  then have "[c] @ s \<in> star (lang AnyChar)" using Cons by (intro star_more) simp_all
  then show ?case by simp
qed

lemma re_search_lang: "re_search r s \<longleftrightarrow> (\<exists>u v w. s = u @ v @ w \<and> v \<in> lang r)"
proof -
  have "re_search r s \<longleftrightarrow> s \<in> conc (lang (Star AnyChar)) (conc (lang r) (lang (Star AnyChar)))"
    by (simp add: re_search_def rx_matches_lang)
  also have "\<dots> \<longleftrightarrow> (\<exists>u v w. s = u @ v @ w \<and> v \<in> lang r)"
    unfolding conc_def using star_anychar by blast
  finally show ?thesis .
qed

lemma lang_Lit: "lang (Lit s) = {s}"
  by (induction s) (auto simp add: Lit_def conc_def)

section \<open>Properties of the scorers\<close>


lemma check_keywords_mono:
  "0 \<le> pts \<Longrightarrow> fst t \<le> fst (check_keywords pts label low ks t)"
proof (induction ks arbitrary: t)
  case Nil
  then show ?case by simp
next
  case (Cons k ks)
  have "fst t \<le> fst (if py_in k low
        then (fst t + pts, snd t @ [label @ '': '' @ [CHR 0x27] @ k @ [CHR 0x27]]) else t)"
    using Cons.prems by simp
  also have "\<dots> \<le> fst (check_keywords pts label low (k # ks) t)"
    using Cons.IH [OF Cons.prems] by simp
  finally show ?case .
qed

lemma check_keywords_hit:
  "0 \<le> pts \<Longrightarrow> k \<in> set ks \<Longrightarrow> py_in k low
     \<Longrightarrow> fst t + pts \<le> fst (check_keywords pts label low ks t)"
proof (induction ks arbitrary: t)
  case Nil
  then show ?case by simp
next
  case (Cons a ks)
  show ?case
  proof (cases "a = k")
    case True
    have "fst t + pts \<le> fst (fst t + pts, snd t @ [label @ '': '' @ [CHR 0x27] @ k @ [CHR 0x27]])"
      by simp
    also have "\<dots> \<le> fst (check_keywords pts label low ks
                  (fst t + pts, snd t @ [label @ '': '' @ [CHR 0x27] @ k @ [CHR 0x27]]))"
      by (rule check_keywords_mono [OF Cons.prems(1)])
    finally show ?thesis using True Cons.prems(3) by simp
  next
    case False
    then have mem: "k \<in> set ks" using Cons.prems(2) by simp
    let ?t' = "if py_in a low
        then (fst t + pts, snd t @ [label @ '': '' @ [CHR 0x27] @ a @ [CHR 0x27]]) else t"
    have "fst t \<le> fst ?t'" using Cons.prems(1) by simp
    moreover have "fst ?t' + pts \<le> fst (check_keywords pts label low ks ?t')"
      by (rule Cons.IH [OF Cons.prems(1) mem Cons.prems(3)])
    ultimately show ?thesis by simp
  qed
qed

lemma check_format_mono: "fst t \<le> fst (check_format c t)"
  by (simp add: check_format_def)

lemma check_prefix_nonneg: "0 \<le> fst t \<Longrightarrow> 0 \<le> fst (check_prefix c t)"
  by (simp add: check_prefix_def)

lemma check_digits_mono: "fst t \<le> fst (check_digits c t)"
  by (simp add: check_digits_def Let_def)

lemma check_segments_mono: "fst t \<le> fst (check_segments c t)"
  by (simp add: check_segments_def Let_def)

lemma check_letters_mono: "fst t \<le> fst (check_letters c t)"
  by (simp add: check_letters_def)

lemma check_unknown_prefix_mono: "fst t \<le> fst (check_unknown_prefix c t)"
  by (simp add: check_unknown_prefix_def)

lemma cap_score_range: "0 \<le> fst (cap_score t) \<and> fst (cap_score t) \<le> 10"
  by (simp add: cap_score_def)

lemma cap_score_lower: "8 \<le> fst t \<Longrightarrow> 8 \<le> fst (cap_score t)"
  by (simp add: cap_score_def)

lemma known_safe_no_keyword:
  "list_all (\<lambda>c. \<not> py_in ''bvn'' (lower c) \<and> \<not> py_in ''pin'' (lower c) \<and> \<not> py_in ''password'' (lower c))
     KNOWN_SAFE_CODES"
  by code_simp

lemma pattern_score_ussd_range:
  "normalize_ussd c \<noteq> [] \<Longrightarrow> 0 \<le> fst (pattern_score_ussd c) \<and> fst (pattern_score_ussd c) \<le> 10"
  using cap_score_range by (simp add: pattern_score_ussd_def Let_def)


text \<open>
  Claim C2. A code whose normal form contains \<open>bvn\<close>, \<open>pin\<close> or \<open>password\<close> in any letter
  case (that is, whose lower-cased normal form contains the keyword) scores at least 8, and
  at most 10. No entry of \<open>KNOWN_SAFE_CODES\<close> contains one of the three keywords
  (\<open>known_safe_no_keyword\<close>), so such a code is never on the whitelist and the claim's second
  condition needs no hypothesis of its own.
\<close>

theorem high_risk_keyword_reaches_threshold:
  assumes "py_in ''bvn'' (lower (normalize_ussd c)) \<or> py_in ''pin'' (lower (normalize_ussd c))
           \<or> py_in ''password'' (lower (normalize_ussd c))"
  shows "8 \<le> fst (pattern_score_ussd c) \<and> fst (pattern_score_ussd c) \<le> 10"
proof -
  let ?c = "normalize_ussd c"
  let ?low = "lower ?c"
  from assms obtain k where k: "k \<in> set high_risk_kw" "py_in k ?low"
    by (auto simp: high_risk_kw_def)
  have ne: "?c \<noteq> []"
    using assms by (auto simp: py_in_def lower_def)
  have nw: "?c \<notin> set KNOWN_SAFE_CODES"
    using known_safe_no_keyword assms by (auto simp: list_all_iff)
  let ?t0 = "check_digits ?c (check_prefix ?c (check_format ?c (0, [])))"
  let ?t1 = "check_keywords 8 ''High-risk keyword'' ?low high_risk_kw ?t0"
  let ?t2 = "check_keywords 4 ''Medium-risk keyword'' ?low medium_risk_kw ?t1"
  let ?t3 = "check_unknown_prefix ?c (check_letters ?c (check_segments ?c ?t2))"
  have "0 \<le> fst (check_format ?c (0, []))"
    using check_format_mono [of "(0, [])" ?c] by simp
  then have "0 \<le> fst (check_prefix ?c (check_format ?c (0, [])))"
    by (rule check_prefix_nonneg)
  then have t0: "0 \<le> fst ?t0"
    using check_digits_mono [of "check_prefix ?c (check_format ?c (0, []))" ?c] by linarith
  have "fst ?t0 + 8 \<le> fst ?t1"
    using check_keywords_hit [of 8 k high_risk_kw ?low ?t0] k by simp
  then have t1: "8 \<le> fst ?t1" using t0 by linarith
  have t2: "fst ?t1 \<le> fst ?t2"
    by (rule check_keywords_mono) simp
  have "fst ?t2 \<le> fst (check_segments ?c ?t2)"
    by (rule check_segments_mono)
  also have "\<dots> \<le> fst (check_letters ?c (check_segments ?c ?t2))"
    by (rule check_letters_mono)
  also have "\<dots> \<le> fst ?t3"
    by (rule check_unknown_prefix_mono)
  finally have "8 \<le> fst ?t3" using t1 t2 by linarith
  then have "8 \<le> fst (cap_score ?t3)" by (rule cap_score_lower)
  moreover have "pattern_score_ussd c = cap_score ?t3"
    using ne nw by (simp add: pattern_score_ussd_def Let_def)
  ultimately show ?thesis using cap_score_range [of ?t3] by simp
qed

theorem high_risk_keyword_reaches_threshold_witness:
  "py_in ''pin'' (lower (normalize_ussd '' *966*PIN*1# ''))
   \<and> 8 \<le> fst (pattern_score_ussd '' *966*PIN*1# '')
   \<and> fst (pattern_score_ussd '' *966*PIN*1# '') \<le> 10"
proof -
  have h: "py_in ''pin'' (lower (normalize_ussd '' *966*PIN*1# ''))" by code_simp
  then show ?thesis
    using high_risk_keyword_reaches_threshold [of "'' *966*PIN*1# ''"] by blast
qed

lemma ussd_format_rejects_empty: "\<not> re_match_anchored ussd_format (strip [])"
  by (simp add: re_match_anchored_def ussd_format_def strip_def)

text \<open>
  Claim C10. When the stripped message matches the USSD format, the SMS scorer returns
  \<open>scam = False\<close>, \<open>confidence = 0\<close> and the single reason \<open>USSD code detected\<close>, whatever
  keywords the message contains; the keyword scoring is not reached (the result has no
  \<open>score\<close> key).
\<close>

theorem ussd_like_sms_short_circuits:
  assumes "re_match_anchored ussd_format (strip sms)"
  shows "improved_check_sms_scam sms =
           \<lparr>sms_content = None, scam = False, confidence = 0, sms_score = None,
            sms_reasons = [''USSD code detected'']\<rparr>"
proof -
  have "sms \<noteq> []" using assms ussd_format_rejects_empty by auto
  then show ?thesis using assms by (simp add: improved_check_sms_scam_def)
qed

theorem ussd_like_sms_short_circuits_witness:
  "re_match_anchored ussd_format (strip ''*bvn*password#'')
   \<and> py_in ''bvn'' (lower ''*bvn*password#'') \<and> py_in ''password'' (lower ''*bvn*password#'')
   \<and> improved_check_sms_scam ''*bvn*password#'' =
           \<lparr>sms_content = None, scam = False, confidence = 0, sms_score = None,
            sms_reasons = [''USSD code detected'']\<rparr>"
proof -
  have h: "re_match_anchored ussd_format (strip ''*bvn*password#'')" by code_simp
  have k: "py_in ''bvn'' (lower ''*bvn*password#'') \<and> py_in ''password'' (lower ''*bvn*password#'')"
    by code_simp
  show ?thesis using h k ussd_like_sms_short_circuits [OF h] by simp
qed

text \<open>
  Claim C5. When the normalised message (lower-cased, punctuation removed) matches one of the
  legitimate templates, the SMS scorer returns \<open>scam = False\<close> and \<open>confidence = 0\<close> from
  one of its early returns, before any keyword is scored (the result has no \<open>score\<close> key).
\<close>

theorem legitimate_template_short_circuits:
  assumes "list_ex (\<lambda>pattern. re_search pattern (normalize_sms sms)) legitimate_patterns"
  shows "scam (improved_check_sms_scam sms) = False
         \<and> confidence (improved_check_sms_scam sms) = 0
         \<and> sms_score (improved_check_sms_scam sms) = None"
  using assms by (simp add: improved_check_sms_scam_def Let_def)

theorem legitimate_template_short_circuits_witness:
  "list_ex (\<lambda>pattern. re_search pattern (normalize_sms ''Your OTP is 1234'')) legitimate_patterns
   \<and> scam (improved_check_sms_scam ''Your OTP is 1234'') = False
   \<and> confidence (improved_check_sms_scam ''Your OTP is 1234'') = 0
   \<and> sms_score (improved_check_sms_scam ''Your OTP is 1234'') = None"
proof -
  have h: "list_ex (\<lambda>pattern. re_search pattern (normalize_sms ''Your OTP is 1234'')) legitimate_patterns"
    by code_simp
  show ?thesis using h legitimate_template_short_circuits [OF h] by simp
qed

lemma scam_indicators_nonneg: "(w, v) \<in> set scam_indicators \<Longrightarrow> 0 \<le> v"
  by (auto simp: scam_indicators_def)

lemma indicators_for_nonneg: "indicators_for n w = Some v \<Longrightarrow> 0 \<le> v"
proof (cases "w = ''otp''")
  case True
  assume "indicators_for n w = Some v"
  with True have "v = otp_weight n" by (simp add: indicators_for_def)
  then show ?thesis by (simp add: otp_weight_def)
next
  case False
  assume "indicators_for n w = Some v"
  with False have "map_of scam_indicators w = Some v" by (simp add: indicators_for_def)
  then have "(w, v) \<in> set scam_indicators" by (rule map_of_SomeD)
  then show ?thesis by (rule scam_indicators_nonneg)
qed

lemma score_words_mono:
  "(\<And>w v. ind w = Some v \<Longrightarrow> 0 \<le> v) \<Longrightarrow> fst t \<le> fst (score_words ind ws t)"
proof (induction ws arbitrary: t)
  case Nil
  then show ?case by simp
next
  case (Cons word ws)
  let ?t' = "case ind word of None \<Rightarrow> t | Some pts \<Rightarrow> (fst t + pts, snd t @ [word])"
  have "fst t \<le> fst ?t'" using Cons.prems by (cases "ind word") auto
  also have "\<dots> \<le> fst (score_words ind ws ?t')" using Cons.IH Cons.prems by blast
  finally show ?case by simp
qed

lemma score_patterns_mono:
  "(\<And>p pts r. (p, pts, r) \<in> set ps \<Longrightarrow> 0 \<le> pts) \<Longrightarrow> fst t \<le> fst (score_patterns n ps t)"
proof (induction ps arbitrary: t)
  case Nil
  then show ?case by simp
next
  case (Cons a ps)
  obtain p pts r where a: "a = (p, pts, r)" by (cases a) auto
  let ?t' = "if re_search p n then (fst t + pts, snd t @ [r]) else t"
  have "0 \<le> pts" using Cons.prems [of p pts r] a by simp
  then have "fst t \<le> fst ?t'" by simp
  also have "\<dots> \<le> fst (score_patterns n ps ?t')"
    by (rule Cons.IH) (use Cons.prems in auto)
  finally show ?case using a by simp
qed

lemma sms_patterns_nonneg: "(p, pts, r) \<in> set sms_patterns \<Longrightarrow> 0 \<le> pts"
  by (auto simp: sms_patterns_def)

lemma sms_raw_score_nonneg:
  "0 \<le> fst (score_patterns n sms_patterns
            (fst (score_words (indicators_for n) ws (0, [])), rs))"
proof -
  have "0 \<le> fst (score_words (indicators_for n) ws (0, []))"
    using score_words_mono [of "indicators_for n" "(0, [])" ws] indicators_for_nonneg by simp
  moreover have "fst (fst (score_words (indicators_for n) ws (0, [])), rs)
     \<le> fst (score_patterns n sms_patterns (fst (score_words (indicators_for n) ws (0, [])), rs))"
    by (rule score_patterns_mono) (rule sms_patterns_nonneg)
  ultimately show ?thesis by simp
qed

lemma sms_confidence_range:
  "0 \<le> confidence (improved_check_sms_scam sms)
   \<and> confidence (improved_check_sms_scam sms) \<le> 10"
  using sms_raw_score_nonneg by (simp add: improved_check_sms_scam_def Let_def)

lemma sms_score_field:
  "sms_score (improved_check_sms_scam sms) = Some s
   \<Longrightarrow> 0 \<le> s \<and> confidence (improved_check_sms_scam sms) = min s 10"
  using sms_raw_score_nonneg
  by (auto simp add: improved_check_sms_scam_def Let_def split: if_splits)

text \<open>Every code whose normal form is empty gets the sentinel.\<close>

lemma empty_code_sentinel:
  "normalize_ussd c = [] \<Longrightarrow> pattern_score_ussd c = (100, [''Empty code''])"
  by (simp add: pattern_score_ussd_def)

text \<open>
  Claim C1, as stated, fails on the empty string: the USSD scorer answers the sentinel 100
  for a code whose normal form is empty.
\<close>

theorem score_range_counterexample:
  "\<not> (0 \<le> fst (pattern_score_ussd []) \<and> fst (pattern_score_ussd []) \<le> 10)"
  by (simp add: pattern_score_ussd_def normalize_ussd_def)

text \<open>
  Claim C1, amended. For every code whose normal form is not empty the USSD score lies in
  \<open>[0, 10]\<close>; for every message the confidence of the SMS scorer lies in \<open>[0, 10]\<close>, and
  where the result carries the key \<open>score\<close>, that is the uncapped total, not negative, with
  \<open>confidence = min(score, 10)\<close>.
\<close>

theorem scores_in_range:
  "(normalize_ussd c \<noteq> [] \<longrightarrow>
      0 \<le> fst (pattern_score_ussd c) \<and> fst (pattern_score_ussd c) \<le> 10)
   \<and> 0 \<le> confidence (improved_check_sms_scam sms)
   \<and> confidence (improved_check_sms_scam sms) \<le> 10
   \<and> (\<forall>s. sms_score (improved_check_sms_scam sms) = Some s \<longrightarrow>
          0 \<le> s \<and> confidence (improved_check_sms_scam sms) = min s 10)"
  using pattern_score_ussd_range [of c] sms_confidence_range [of sms] sms_score_field [of sms]
  by blast

theorem scores_in_range_witness:
  "normalize_ussd ''*bvn*pin*password*auth#'' \<noteq> []
   \<and> fst (pattern_score_ussd ''*bvn*pin*password*auth#'') = 10
   \<and> sms_score (improved_check_sms_scam ''you won 5 lottery'') = Some 15
   \<and> confidence (improved_check_sms_scam ''you won 5 lottery'') = 10"
proof -
  have a: "normalize_ussd ''*bvn*pin*password*auth#'' \<noteq> []" by code_simp
  have b: "fst (pattern_score_ussd ''*bvn*pin*password*auth#'') = 10" by code_simp
  have c: "sms_score (improved_check_sms_scam ''you won 5 lottery'') = Some 15" by code_simp
  show ?thesis
    using a b c scores_in_range [of "''*bvn*pin*password*auth#''" "''you won 5 lottery''"]
    by simp
qed

section \<open>Properties of the endpoint \<open>/check-ussd\<close>\<close>

lemma known_safe_normal: "list_all (\<lambda>c. normalize_ussd c = c \<and> c \<noteq> []) KNOWN_SAFE_CODES"
  by code_simp

lemma known_safe_score:
  assumes "c \<in> set KNOWN_SAFE_CODES"
  shows "pattern_score_ussd c = (0, [''Known safe telco/bank code''])"
proof -
  have "normalize_ussd c = c \<and> c \<noteq> []"
    using known_safe_normal assms by (simp add: list_all_iff)
  then show ?thesis using assms by (simp add: pattern_score_ussd_def Let_def)
qed

lemma online_verify_never: "online_verify_ussd fetch c [] = (False, None)"
  by (simp add: online_verify_ussd_def TRUSTED_USSD_SOURCE_URLS_def)

text \<open>
  Claim C3, amended. Every code of \<open>KNOWN_SAFE_CODES\<close> scores 0, and \<open>/check-ussd\<close> answers
  \<open>safe = True\<close> with score 0 for it whenever the code is neither in the blacklist file nor
  in the cache file; the files are left as they were.
\<close>

theorem known_safe_codes_are_safe:
  assumes "c \<in> set KNOWN_SAFE_CODES"
  shows "pattern_score_ussd c = (0, [''Known safe telco/bank code''])
         \<and> (c \<notin> load_blacklist_ussd (blacklist_ussd w) \<longrightarrow>
              read_ussd_cache (ussd_cache w) c = None \<longrightarrow>
              (\<exists>r. check_ussd fetch online w c full_mode = Inr (r, w) \<and> safe r \<and> score r = 0))"
proof -
  have n: "normalize_ussd c = c \<and> c \<noteq> []"
    using known_safe_normal assms by (simp add: list_all_iff)
  have s: "pattern_score_ussd c = (0, [''Known safe telco/bank code''])"
    using assms by (rule known_safe_score)
  show ?thesis
    using n s by (simp add: check_ussd_def Let_def online_verify_never)
qed

lemma initial_world_lists:
  "load_blacklist_ussd (blacklist_ussd initial_world) = {}"
  "load_safe_ussd (safe_ussd_codes initial_world) = {}"
  "read_ussd_cache (ussd_cache initial_world) = Map.empty"
  by (simp_all add: initial_world_def load_blacklist_ussd_def load_safe_ussd_def load_lines_def
        read_text_def read_ussd_cache_def loads_or_def json_loads_def strip_def)

theorem known_safe_codes_are_safe_witness:
  "''*901#'' \<in> set KNOWN_SAFE_CODES
   \<and> pattern_score_ussd ''*901#'' = (0, [''Known safe telco/bank code''])
   \<and> (\<exists>r. check_ussd no_network False initial_world ''*901#'' False = Inr (r, initial_world)
            \<and> safe r \<and> score r = 0)"
proof -
  have m: "''*901#'' \<in> set KNOWN_SAFE_CODES" by code_simp
  show ?thesis
    using m known_safe_codes_are_safe [OF m, of initial_world no_network False False]
    by (simp add: initial_world_lists)
qed

lemma blacklisted_901: "''*901#'' \<in> load_blacklist_ussd (File ''*901#'')"
  by code_simp

text \<open>
  Claim C3, as stated, fails for \<open>/check-ussd\<close>: the blacklist is consulted before the
  scorer, so a whitelisted code that stands in the blacklist file is answered
  \<open>safe = False\<close> with score 10.
\<close>

theorem known_safe_blacklisted_counterexample:
  "''*901#'' \<in> set KNOWN_SAFE_CODES
   \<and> check_ussd no_network False (initial_world\<lparr>blacklist_ussd := File ''*901#''\<rparr>) ''*901#'' False
       = Inr (\<lparr>resp_code = ''*901#'', safe = False, score = 10, reasons = [''Blacklisted''],
               verified_online = False, source = None, cached = False\<rparr>,
              initial_world\<lparr>blacklist_ussd := File ''*901#''\<rparr>)"
proof -
  have m: "''*901#'' \<in> set KNOWN_SAFE_CODES" by code_simp
  have n: "normalize_ussd ''*901#'' = ''*901#''" by code_simp
  show ?thesis using m n blacklisted_901 by (simp add: check_ussd_def Let_def)
qed

text \<open>
  Claim C7, as stated, fails: the score of \<open>*123*password*#\<close> is not 10.
\<close>

theorem password_example_counterexample:
  "fst (pattern_score_ussd ''*123*password*#'') \<noteq> 10"
  by code_simp

lemma password_example_score:
  "pattern_score_ussd ''*123*password*#'' =
     (8, [''Known safe prefix'', ''High-risk keyword: '' @ [CHR 0x27] @ ''password'' @ [CHR 0x27]])"
  by code_simp

lemma password_example_normal: "normalize_ussd ''*123*password*#'' = ''*123*password*#''"
  by code_simp

text \<open>
  Claim C7, amended. For \<open>*123*password*#\<close> the format is valid and the prefix \<open>*123\<close> is a
  known safe prefix, so only the keyword \<open>password\<close> counts: the score is 8, below the cap.
  \<open>/check-ussd\<close> answers \<open>safe = False\<close> with score 8 when the code is in none of the
  blacklist, cache and safe-list files.
\<close>

theorem password_example_scores_eight:
  "pattern_score_ussd ''*123*password*#'' =
     (8, [''Known safe prefix'', ''High-risk keyword: '' @ [CHR 0x27] @ ''password'' @ [CHR 0x27]])
   \<and> (''*123*password*#'' \<notin> load_blacklist_ussd (blacklist_ussd w) \<longrightarrow>
        read_ussd_cache (ussd_cache w) ''*123*password*#'' = None \<longrightarrow>
        ''*123*password*#'' \<notin> load_safe_ussd (safe_ussd_codes w) \<longrightarrow>
        (\<exists>r. check_ussd fetch online w ''*123*password*#'' full_mode = Inr (r, w)
              \<and> safe r = False \<and> score r = 8))"
  using password_example_score password_example_normal
  by (simp add: check_ussd_def Let_def online_verify_never)

theorem password_example_scores_eight_witness:
  "\<exists>r. check_ussd no_network False initial_world ''*123*password*#'' False = Inr (r, initial_world)
        \<and> safe r = False \<and> score r = 8"
  using password_example_scores_eight [of initial_world no_network False False]
  by (simp add: initial_world_lists)

section \<open>Properties of the flat-file store\<close>



section \<open>Properties of the moderation endpoints\<close>

lemma read_write_reports: "read_reports (write_reports rs) = rs"
  by (simp add: read_reports_def write_reports_def loads_or_def read_text_def json_loads_def)

lemma status_set_status:
  "i < length rs \<Longrightarrow> map status (set_status rs i s) = (map status rs)[i := s]"
  by (simp add: set_status_def map_update)

lemma nth_set_status: "i < length rs \<Longrightarrow> status (set_status rs i s ! i) = s"
  by (simp add: set_status_def)

lemma update_report_status_result:
  assumes "0 \<le> i" and "i < int (length (read_reports (community_reports w)))"
  shows "\<exists>w'. update_report_status w \<lparr>upd_index = i, upd_status = s, upd_action = a\<rparr>
               = Inr (set_status (read_reports (community_reports w)) (nat i) s ! nat i, w')
             \<and> read_reports (community_reports w')
                 = set_status (read_reports (community_reports w)) (nat i) s"
  using assms by (simp add: update_report_status_def Let_def read_write_reports)

lemma reject_report_result:
  assumes "0 \<le> i" and "i < int (length (read_reports (community_reports w)))"
  shows "\<exists>w'. reject_report w i = Inr w'
             \<and> read_reports (community_reports w')
                 = set_status (read_reports (community_reports w)) (nat i) ''Rejected''"
  using assms by (simp add: reject_report_def Let_def read_write_reports)

lemma approve_report_result:
  assumes "approve_report w i = Inr w'"
  shows "read_reports (community_reports w')
           = set_status (read_reports (community_reports w)) (nat i) ''Verified''"
  using assms
  by (auto simp add: approve_report_def Let_def read_write_reports
        datetime_datetime_now_isoformat_def split: if_splits sum.splits)

text \<open>
  Claim C4, amended. For a valid index, \<open>update_report_status\<close> sets the status of that
  report to the string of the request, whatever it is; \<open>reject_report\<close> sets it to
  \<open>Rejected\<close> and \<open>approve_report\<close>, when it succeeds, to \<open>Verified\<close>, whatever the status
  was before. The statuses of the other reports stay as they are.
\<close>

theorem moderation_sets_status:
  assumes "0 \<le> i" and "i < int (length (read_reports (community_reports w)))"
  shows "(\<exists>r w'. update_report_status w \<lparr>upd_index = i, upd_status = s, upd_action = a\<rparr> = Inr (r, w')
            \<and> status r = s
            \<and> map status (read_reports (community_reports w'))
                = (map status (read_reports (community_reports w)))[nat i := s])
         \<and> (\<exists>w'. reject_report w i = Inr w'
            \<and> map status (read_reports (community_reports w'))
                = (map status (read_reports (community_reports w)))[nat i := ''Rejected''])
         \<and> (\<forall>w'. approve_report w i = Inr w' \<longrightarrow>
              map status (read_reports (community_reports w'))
                = (map status (read_reports (community_reports w)))[nat i := ''Verified''])"
proof -
  let ?rs = "read_reports (community_reports w)"
  have lt: "nat i < length ?rs" using assms by linarith
  have a: "\<exists>r w'. update_report_status w \<lparr>upd_index = i, upd_status = s, upd_action = a\<rparr> = Inr (r, w')
            \<and> status r = s
            \<and> map status (read_reports (community_reports w')) = (map status ?rs)[nat i := s]"
    using update_report_status_result [OF assms, of s a] nth_set_status [OF lt, of s]
      status_set_status [OF lt, of s] by auto
  have b: "\<exists>w'. reject_report w i = Inr w'
            \<and> map status (read_reports (community_reports w'))
                = (map status ?rs)[nat i := ''Rejected'']"
    using reject_report_result [OF assms] status_set_status [OF lt, of "''Rejected''"] by auto
  have c: "\<forall>w'. approve_report w i = Inr w' \<longrightarrow>
              map status (read_reports (community_reports w'))
                = (map status ?rs)[nat i := ''Verified'']"
    using approve_report_result [of w i] status_set_status [OF lt, of "''Verified''"] by auto
  show ?thesis using a b c by blast
qed

lemma example_world_reports:
  "read_reports (community_reports (example_world st)) = [example_report st]"
  by (simp add: example_world_def read_reports_def loads_or_def read_text_def json_loads_def)

lemma example_code_curated:
  "list_ex (\<lambda>c. normalize_code (code c) = normalize_code ''*999#'') [example_curated]"
  by (simp add: example_curated_def)

lemma example_world_curated:
  "load_curated_codes (curated_codes (example_world st)) = [example_curated]"
  by (simp add: example_world_def load_curated_codes_def loads_or_def read_text_def json_loads_def)

lemma example_report_fields:
  "content (example_report st) = ''*999#''" "report_type (example_report st) = ''ussd''"
  "set_status [example_report st] 0 st' = [example_report st']"
  by (simp_all add: example_report_def set_status_def)

lemma example_approve:
  "approve_report (example_world st) 0
     = Inr ((example_world st)\<lparr>community_reports := File (Parsed [example_report ''Verified''])\<rparr>)"
  using example_code_curated
  by (simp add: approve_report_def Let_def example_world_reports example_world_curated
        example_report_fields write_reports_def)

theorem moderation_sets_status_witness:
  "(0::int) \<le> 0 \<and> 0 < int (length (read_reports (community_reports (example_world ''Rejected''))))
   \<and> approve_report (example_world ''Rejected'') 0
       = Inr ((example_world ''Rejected'')\<lparr>community_reports := File (Parsed [example_report ''Verified''])\<rparr>)
   \<and> map status (read_reports (community_reports
        ((example_world ''Rejected'')\<lparr>community_reports := File (Parsed [example_report ''Verified''])\<rparr>)))
       = (map status (read_reports (community_reports (example_world ''Rejected''))))[nat 0 := ''Verified'']"
proof -
  have h: "(0::int) \<le> 0" "0 < int (length (read_reports (community_reports (example_world ''Rejected''))))"
    by (simp_all add: example_world_reports)
  show ?thesis
    using h example_approve [of "''Rejected''"]
      moderation_sets_status [OF h, of "''x''" None]
    by blast
qed

text \<open>
  Claim C4, as stated, fails: \<open>update_report_status\<close> stores a status outside the three
  (here \<open>Spam\<close>), and \<open>reject_report\<close> moves a report from \<open>Verified\<close> to \<open>Rejected\<close>.
\<close>

theorem report_status_counterexample:
  "update_report_status (example_world ''Pending'') \<lparr>upd_index = 0, upd_status = ''Spam'', upd_action = None\<rparr>
     = Inr (example_report ''Spam'',
            (example_world ''Pending'')\<lparr>community_reports := File (Parsed [example_report ''Spam''])\<rparr>)
   \<and> reject_report (example_world ''Verified'') 0
     = Inr ((example_world ''Verified'')\<lparr>community_reports := File (Parsed [example_report ''Rejected''])\<rparr>)
   \<and> ''Spam'' \<notin> {''Pending'', ''Verified'', ''Rejected''}"
  by (simp add: update_report_status_def reject_report_def Let_def example_world_reports
        example_report_fields write_reports_def)

section \<open>The variant server and the core scorers\<close>

lemma check_ussd_code_safe:
  "v_safe (check_ussd_code search db c)
     = (\<exists>safe_code \<in> set (safe_codes db). lower (fst safe_code) = strip (lower c))"
proof (cases "find (\<lambda>safe_code. lower (fst safe_code) = strip (lower c)) (safe_codes db)")
  case None
  then have "\<not> (\<exists>safe_code \<in> set (safe_codes db). lower (fst safe_code) = strip (lower c))"
    by (auto simp add: find_None_iff)
  then show ?thesis using None
    by (simp add: check_ussd_code_def Let_def split: option.splits)
next
  case (Some a)
  then have "\<exists>safe_code \<in> set (safe_codes db). lower (fst safe_code) = strip (lower c)"
    by (auto simp add: find_Some_iff)
  then show ?thesis using Some by (simp add: check_ussd_code_def Let_def)
qed

lemma check_ussd_code_confidence:
  "v_confidence (check_ussd_code search db c) \<in> {50, 75, 90, 95}"
  by (simp add: check_ussd_code_def Let_def split: option.splits)

lemma pattern_score_values:
  "fst (pattern_score_ussd c) = 100 \<or> (0 \<le> fst (pattern_score_ussd c) \<and> fst (pattern_score_ussd c) \<le> 10)"
  by (simp add: pattern_score_ussd_def Let_def cap_score_def)

lemma check_sms_message_confidence:
  "v_confidence (check_sms_message m) \<in> {0, 60, 75, 90, 95}"
  by (simp add: check_sms_message_def Let_def)

text \<open>
  Claim C8, amended. The variant cyberguard\_clean.py is a classifier of its own:
  \<open>check_ussd_code\<close> answers \<open>safe = True\<close> exactly when the lower-cased, stripped code
  equals a lower-cased safe code of its database; its confidence is one of 50, 75, 90, 95
  and so never the score of \<open>pattern_score_ussd\<close>; the confidence of \<open>check_sms_message\<close> is
  one of 0, 60, 75, 90, 95.
\<close>

theorem variant_is_a_different_classifier:
  "(v_safe (check_ussd_code search db c)
      = (\<exists>safe_code \<in> set (safe_codes db). lower (fst safe_code) = strip (lower c)))
   \<and> v_confidence (check_ussd_code search db c) \<in> {50, 75, 90, 95}
   \<and> v_confidence (check_ussd_code search db c) \<noteq> fst (pattern_score_ussd c)
   \<and> v_confidence (check_sms_message m) \<in> {0, 60, 75, 90, 95}"
proof -
  have "v_confidence (check_ussd_code search db c) \<noteq> fst (pattern_score_ussd c)"
    using check_ussd_code_confidence [of search db c] pattern_score_values [of c] by auto
  then show ?thesis
    using check_ussd_code_safe check_ussd_code_confidence check_sms_message_confidence by blast
qed

theorem variant_is_a_different_classifier_witness:
  "(''*901#'', ''Access Bank'') \<in> set (safe_codes example_database)
   \<and> lower ''*901#'' = strip (lower '' *901# '')
   \<and> v_safe (check_ussd_code search_nothing example_database '' *901# '')
   \<and> v_confidence (check_ussd_code search_nothing example_database '' *901# '') \<noteq> 0
   \<and> fst (pattern_score_ussd '' *901# '') = 0"
proof -
  have a: "(''*901#'', ''Access Bank'') \<in> set (safe_codes example_database)"
    by (simp add: example_database_def)
  have b: "lower ''*901#'' = strip (lower '' *901# '')" by code_simp
  have c: "fst (pattern_score_ussd '' *901# '') = 0" by code_simp
  have "\<exists>safe_code \<in> set (safe_codes example_database). lower (fst safe_code) = strip (lower '' *901# '')"
    using a b by force
  then show ?thesis
    using a b c variant_is_a_different_classifier [of search_nothing example_database "'' *901# ''" "[]"]
    by simp
qed

text \<open>
  Claim C8, as stated, fails. With the database that \<open>load_database\<close> returns when its file
  is missing, the variant answers \<open>safe = False\<close>, confidence 50 for the whitelisted \<open>*901#\<close>,
  which the core scores 0; and the variant flags the message \<open>pinned\<close> (it contains \<open>pin\<close>),
  which the core does not.
\<close>

theorem variant_equivalence_counterexample:
  "v_safe (check_ussd_code search_nothing empty_database ''*901#'') = False
   \<and> v_confidence (check_ussd_code search_nothing empty_database ''*901#'') = 50
   \<and> pattern_score_ussd ''*901#'' = (0, [''Known safe telco/bank code''])
   \<and> v_safe (check_sms_message ''pinned'') = False
   \<and> scam (improved_check_sms_scam ''pinned'') = False
   \<and> confidence (improved_check_sms_scam ''pinned'') = 0"
proof -
  have a: "v_safe (check_ussd_code search_nothing empty_database ''*901#'') = False
     \<and> v_confidence (check_ussd_code search_nothing empty_database ''*901#'') = 50"
    by (simp add: check_ussd_code_def empty_database_def Let_def)
  have b: "pattern_score_ussd ''*901#'' = (0, [''Known safe telco/bank code''])" by code_simp
  have c: "v_safe (check_sms_message ''pinned'') = False" by code_simp
  have d: "scam (improved_check_sms_scam ''pinned'') = False
     \<and> confidence (improved_check_sms_scam ''pinned'') = 0" by code_simp
  show ?thesis using a b c d by simp
qed

section \<open>The endpoint \<open>/check-ussd\<close> and the network\<close>

text \<open>No trusted source is configured, so the online check never succeeds: the answer of
  \<open>/check-ussd\<close> does not depend on the network or on \<open>full_mode\<close>, and the files stay as
  they were.\<close>

lemma check_ussd_offline:
  "check_ussd fetch online w c full_mode = check_ussd no_network False w c False"
  by (simp add: check_ussd_def Let_def online_verify_never split: option.splits prod.splits)

lemma check_ussd_keeps_world:
  "check_ussd no_network False w c False = Inr (r, w') \<Longrightarrow> w' = w"
  by (auto simp add: check_ussd_def Let_def split: option.splits prod.splits if_splits)

end
